theory Spec2Isabelle
  imports Main
begin

section \<open>Python library operations used by the notebook\<close>

text \<open>
  The notebook \<^verbatim>\<open>image-text-embeddings-batch-endpoint.ipynb\<close> is a linear script.
  Its cells use a handful of operations of the Python language and standard library;
  each is written out here for the arguments the notebook gives it (natural-number
  indices, POSIX paths).
\<close>

text \<open>\<^verbatim>\<open>xs[i:j]\<close> for \<open>0 \<le> i\<close>, \<open>0 \<le> j\<close>: the elements at positions \<open>i, ..., j - 1\<close>
  that exist; empty when \<open>j \<le> i\<close> or \<open>i\<close> is past the end.\<close>

definition py_slice :: "'a list \<Rightarrow> nat \<Rightarrow> nat \<Rightarrow> 'a list" where
  "py_slice xs i j = take (j - i) (drop i xs)"

text \<open>\<^verbatim>\<open>range(i, n, k)\<close> for a positive step: \<open>i, i + k, i + 2k, ...\<close> below \<open>n\<close>.
  (Python raises ValueError for step 0; the notebook's step is the constant 10.)\<close>

function py_range :: "nat \<Rightarrow> nat \<Rightarrow> nat \<Rightarrow> nat list" where
  "py_range i n k = (if i < n \<and> 0 < k then i # py_range (i + k) n k else [])"
  by pat_completeness auto
termination
  by (relation "measure (\<lambda>(i, n, k). n - i)") auto

declare py_range.simps [simp del]

text \<open>\<^verbatim>\<open>str(n)\<close> for a non-negative integer: its decimal digits, most significant first.\<close>

definition digit_char :: "nat \<Rightarrow> char" where
  "digit_char d = ''0123456789'' ! d"

function str_nat :: "nat \<Rightarrow> string" where
  "str_nat n =
     (if n < 10 then [digit_char n] else str_nat (n div 10) @ [digit_char (n mod 10)])"
  by pat_completeness auto
termination
  by (relation "measure id") auto

declare str_nat.simps [simp del]

text \<open>\<^verbatim>\<open>os.path.join(a, b)\<close> of \<^verbatim>\<open>posixpath\<close>: an absolute \<open>b\<close> replaces \<open>a\<close>; otherwise
  \<open>b\<close> is appended, after a separator unless \<open>a\<close> is empty or already ends with one.\<close>

definition os_path_join :: "string \<Rightarrow> string \<Rightarrow> string" where
  "os_path_join a b =
     (if b \<noteq> [] \<and> hd b = CHR ''/'' then b
      else if a = [] \<or> last a = CHR ''/'' then a @ b
      else a @ ''/'' @ b)"

text \<open>\<^verbatim>\<open>os.path.basename(p)\<close> and \<^verbatim>\<open>os.path.dirname(p)\<close> of \<^verbatim>\<open>posixpath\<close>: with \<open>i\<close> the
  position after the last separator (\<^verbatim>\<open>p.rfind('/') + 1\<close>), the base name is \<^verbatim>\<open>p[i:]\<close>
  and the directory name is \<^verbatim>\<open>p[:i]\<close> with trailing separators stripped, unless it
  consists of separators only.\<close>

definition rfind_sep_end :: "string \<Rightarrow> nat" where
  "rfind_sep_end p = length p - length (takeWhile (\<lambda>c. c \<noteq> CHR ''/'') (rev p))"

definition os_path_basename :: "string \<Rightarrow> string" where
  "os_path_basename p = drop (rfind_sep_end p) p"

definition rstrip_sep :: "string \<Rightarrow> string" where
  "rstrip_sep s = rev (dropWhile (\<lambda>c. c = CHR ''/'') (rev s))"

definition os_path_dirname :: "string \<Rightarrow> string" where
  "os_path_dirname p =
     (let head = take (rfind_sep_end p) p in
      if head \<noteq> [] \<and> head \<noteq> replicate (length head) CHR ''/'' then rstrip_sep head
      else head)"

section \<open>Batch input tables and their partition into CSV files\<close>

text \<open>
  A pandas DataFrame as the notebook uses it: column labels, one index label per row
  and the rows themselves (each a list of cell values, here strings).
  \<^verbatim>\<open>pd.DataFrame(data, columns=cols)\<close> labels the rows \<open>0, ..., n - 1\<close>;
  \<^verbatim>\<open>df[i:j]\<close> slices the rows by position and keeps their index labels.
\<close>

record data_frame =
  columns :: "string list"
  index :: "nat list"
  rows :: "string list list"

definition DataFrame :: "string list list \<Rightarrow> string list \<Rightarrow> data_frame" where
  "DataFrame data cols = \<lparr>columns = cols, index = [0..<length data], rows = data\<rparr>"

definition len_df :: "data_frame \<Rightarrow> nat" where
  "len_df df = length (rows df)"

definition df_slice :: "data_frame \<Rightarrow> nat \<Rightarrow> nat \<Rightarrow> data_frame" where
  "df_slice df i j =
     \<lparr>columns = columns df, index = py_slice (index df) i j, rows = py_slice (rows df) i j\<rparr>"

text \<open>
  The chunking cell (the same in sections 3.2, 3.3 and 3.4 of the notebook, up to the
  folder):
  \<^verbatim>\<open>
  batch_input_file = "batch_input.csv"
  batch_size_per_predict = 10
  for i in range(0, len(batch_df), batch_size_per_predict):
      j = i + batch_size_per_predict
      batch_df[i:j].to_csv(os.path.join(folder, str(i) + batch_input_file))
  \<close>
  The loop is a recursion over the range; each iteration issues one \<^verbatim>\<open>to_csv\<close> call,
  recorded as the path and the table written. A file system maps a path to the table
  last written there: \<^verbatim>\<open>to_csv\<close> overwrites.
\<close>

definition batch_input_file :: string where
  "batch_input_file = ''batch_input.csv''"

definition batch_size_per_predict :: nat where
  "batch_size_per_predict = 10"

fun chunk_loop :: "data_frame \<Rightarrow> string \<Rightarrow> nat list \<Rightarrow> (string \<times> data_frame) list" where
  "chunk_loop batch_df folder [] = []"
| "chunk_loop batch_df folder (i # is) =
     (let j = i + batch_size_per_predict in
      (os_path_join folder (str_nat i @ batch_input_file), df_slice batch_df i j)
        # chunk_loop batch_df folder is)"

definition chunk_cell :: "data_frame \<Rightarrow> string \<Rightarrow> (string \<times> data_frame) list" where
  "chunk_cell batch_df folder =
     chunk_loop batch_df folder (py_range 0 (len_df batch_df) batch_size_per_predict)"

text \<open>The tables written, in the order of the loop.\<close>

definition written_chunks :: "data_frame \<Rightarrow> string \<Rightarrow> data_frame list" where
  "written_chunks batch_df folder = map snd (chunk_cell batch_df folder)"

type_synonym file_system = "string \<rightharpoonup> data_frame"

fun to_csv_all :: "(string \<times> data_frame) list \<Rightarrow> file_system \<Rightarrow> file_system" where
  "to_csv_all [] fs = fs"
| "to_csv_all ((path, df) # ws) fs = to_csv_all ws (fs(path \<mapsto> df))"

section \<open>Exceptions, remote calls and their traces\<close>

text \<open>
  The remote service is reached through client calls whose results the notebook cannot
  compute: each such call is a parameter of the model, giving either the value returned
  or the exception raised. An exception object carries the names of its class and of all
  its base classes, in method resolution order, and its message;
  \<^verbatim>\<open>isinstance(e, C)\<close>, which is what an \<^verbatim>\<open>except C\<close> clause tests, holds when \<open>C\<close> is among
  them. An exception that propagates out of a cell ends the cell: the cell's completion
  is then \<open>Raised e\<close> with the very object \<open>e\<close>.
\<close>

datatype py_exception = PyException (exc_mro: "string list") (exc_args: string)

definition isinstance :: "py_exception \<Rightarrow> string \<Rightarrow> bool" where
  "isinstance e cls = (cls \<in> set (exc_mro e))"

datatype completion = Completed | Raised py_exception

datatype batch_job = BatchJob (job_name: string)

text \<open>\<^verbatim>\<open>AmlCompute(name=..., description=..., size=..., min_instances=...,
  max_instances=..., idle_time_before_scale_down=...)\<close>; the field \<open>size_field\<close> is the
  argument \<^verbatim>\<open>size\<close>.\<close>

record aml_compute =
  name :: string
  description :: string
  size_field :: string
  min_instances :: nat
  max_instances :: nat
  idle_time_before_scale_down :: nat

text \<open>What a cell does to the outside world, in order: the calls to the workspace client,
  the lines printed and the sleeps.\<close>

datatype event =
    Invoke nat
  | Print string
  | Sleep nat
  | Stream string
  | ComputeGet string
  | BeginCreateOrUpdate aml_compute

subsection \<open>Invocation with retries (sections 5.1, 5.2 and 5.3)\<close>

text \<open>
  \<^verbatim>\<open>
  job = None
  num_retries = 3
  for i in range(num_retries):
      try:
          job = workspace_ml_client.batch_endpoints.invoke(endpoint_name=..., input=input)
          break
      except Exception as e:
          if i == num_retries - 1:
              raise e
          else:
              print("Endpoint invocation failed. Retrying after 5 seconds...")
              time.sleep(5)
  if job is not None:
      workspace_ml_client.jobs.stream(job.name)
  \<close>
  \<open>invoke i\<close> is the outcome of the call made in iteration \<open>i\<close>: \<open>Inr\<close> the job returned
  (the client returns a job object, never \<^verbatim>\<open>None\<close>), \<open>Inl\<close> the exception raised. An
  exception that is not an instance of \<^verbatim>\<open>Exception\<close> is not caught by the handler and leaves
  the loop at once. \<open>Invoke i\<close> records the call of iteration \<open>i\<close>, \<open>Stream n\<close> the call
  \<^verbatim>\<open>jobs.stream(n)\<close>. \<^verbatim>\<open>print\<close> and \<^verbatim>\<open>time.sleep\<close> are taken to return.
\<close>

record cell_state =
  job :: "batch_job option"
  trace :: "event list"

definition retry_msg :: string where
  "retry_msg = ''Endpoint invocation failed. Retrying after 5 seconds...''"

fun retry_loop ::
  "(nat \<Rightarrow> py_exception + batch_job) \<Rightarrow> nat \<Rightarrow> nat list \<Rightarrow> cell_state
     \<Rightarrow> completion \<times> cell_state" where
  "retry_loop invoke num_retries [] s = (Completed, s)"
| "retry_loop invoke num_retries (i # is) s =
     (let s1 = s\<lparr>trace := trace s @ [Invoke i]\<rparr> in
      case invoke i of
        Inr j \<Rightarrow> (Completed, s1\<lparr>job := Some j\<rparr>)
      | Inl e \<Rightarrow>
          if isinstance e ''Exception'' then
            if i = num_retries - 1 then (Raised e, s1)
            else retry_loop invoke num_retries is
                   (s1\<lparr>trace := trace s1 @ [Print retry_msg, Sleep 5]\<rparr>)
          else (Raised e, s1))"

text \<open>The loop as the cell runs it, from \<^verbatim>\<open>job = None\<close> to the end of the \<^verbatim>\<open>for\<close>.\<close>

definition invoke_retry :: "(nat \<Rightarrow> py_exception + batch_job) \<Rightarrow> completion \<times> cell_state" where
  "invoke_retry invoke =
     (let num_retries = 3 in
      retry_loop invoke num_retries (py_range 0 num_retries 1) \<lparr>job = None, trace = []\<rparr>)"

text \<open>The whole cell: the loop, then the guarded call of \<^verbatim>\<open>jobs.stream\<close>.\<close>

definition invoke_cell :: "(nat \<Rightarrow> py_exception + batch_job) \<Rightarrow> completion \<times> cell_state" where
  "invoke_cell invoke =
     (case invoke_retry invoke of
        (Raised e, s) \<Rightarrow> (Raised e, s)
      | (Completed, s) \<Rightarrow>
          (case job s of
             Some j \<Rightarrow> (Completed, s\<lparr>trace := trace s @ [Stream (job_name j)]\<rparr>)
           | None \<Rightarrow> (Completed, s)))"

text \<open>Readings of a trace: the iterations whose call was made, the sleeps and the streamed
  job names, each in order.\<close>

fun attempts :: "event list \<Rightarrow> nat list" where
  "attempts [] = []"
| "attempts (Invoke i # tr) = i # attempts tr"
| "attempts (_ # tr) = attempts tr"

fun sleeps :: "event list \<Rightarrow> nat list" where
  "sleeps [] = []"
| "sleeps (Sleep d # tr) = d # sleeps tr"
| "sleeps (_ # tr) = sleeps tr"

fun streams :: "event list \<Rightarrow> string list" where
  "streams [] = []"
| "streams (Stream n # tr) = n # streams tr"
| "streams (_ # tr) = streams tr"

text \<open>Three services to run the cell against: one that fails twice with a service error
  and then returns a job, one that always fails, and one whose first call is interrupted
  from the keyboard.\<close>

definition service_error :: py_exception where
  "service_error =
     PyException [''HttpResponseError'', ''AzureError'', ''Exception'', ''BaseException'',
       ''object''] ''busy''"

definition keyboard_interrupt :: py_exception where
  "keyboard_interrupt = PyException [''KeyboardInterrupt'', ''BaseException'', ''object''] []"

definition flaky_invoke :: "nat \<Rightarrow> py_exception + batch_job" where
  "flaky_invoke i = (if i < 2 then Inl service_error else Inr (BatchJob ''batchjob-1''))"

definition failing_invoke :: "nat \<Rightarrow> py_exception + batch_job" where
  "failing_invoke i = Inl (PyException [''HttpResponseError'', ''AzureError'', ''Exception'',
     ''BaseException'', ''object''] (''attempt '' @ str_nat i))"

definition interrupted_invoke :: "nat \<Rightarrow> py_exception + batch_job" where
  "interrupted_invoke i = Inl keyboard_interrupt"

subsection \<open>Compute cluster setup (section 1)\<close>

text \<open>
  \<^verbatim>\<open>
  compute_name = "cpu-cluster"
  try:
      _ = workspace_ml_client.compute.get(compute_name)
      print("Found existing compute target.")
  except ResourceNotFoundError:
      print("Creating a new compute target...")
      compute_config = AmlCompute(name=compute_name, description="An AML compute cluster",
          size="Standard_DS3_V2", min_instances=0, max_instances=3,
          idle_time_before_scale_down=120)
      workspace_ml_client.begin_create_or_update(compute_config).result()
  \<close>
  \<open>compute_get\<close> is the outcome of the lookup, \<open>create_result\<close> that of the creation call
  (\<open>Inr ()\<close> when it returns).
\<close>

definition compute_name :: string where
  "compute_name = ''cpu-cluster''"

definition compute_config :: aml_compute where
  "compute_config =
     \<lparr>name = compute_name, description = ''An AML compute cluster'',
      size_field = ''Standard_DS3_V2'', min_instances = 0, max_instances = 3,
      idle_time_before_scale_down = 120\<rparr>"

definition compute_cell ::
  "(string \<Rightarrow> py_exception + aml_compute) \<Rightarrow> py_exception + unit
     \<Rightarrow> completion \<times> event list" where
  "compute_cell compute_get create_result =
     (case compute_get compute_name of
        Inr _ \<Rightarrow>
          (Completed, [ComputeGet compute_name, Print ''Found existing compute target.''])
      | Inl e \<Rightarrow>
          if isinstance e ''ResourceNotFoundError'' then
            (case create_result of Inr _ \<Rightarrow> Completed | Inl e' \<Rightarrow> Raised e',
             [ComputeGet compute_name, Print ''Creating a new compute target...'',
              BeginCreateOrUpdate compute_config])
          else (Raised e, [ComputeGet compute_name]))"

text \<open>Three lookups: the cluster is missing, the caller is not authorised, the cluster
  exists.\<close>

definition not_found :: py_exception where
  "not_found =
     PyException [''ResourceNotFoundError'', ''HttpResponseError'', ''AzureError'',
       ''Exception'', ''BaseException'', ''object''] ''ResourceNotFound''"

definition not_authorised :: py_exception where
  "not_authorised =
     PyException [''ClientAuthenticationError'', ''HttpResponseError'', ''AzureError'',
       ''Exception'', ''BaseException'', ''object''] ''Forbidden''"

definition get_missing :: "string \<Rightarrow> py_exception + aml_compute" where
  "get_missing n = Inl not_found"

definition get_forbidden :: "string \<Rightarrow> py_exception + aml_compute" where
  "get_forbidden n = Inl not_authorised"

definition get_existing :: "string \<Rightarrow> py_exception + aml_compute" where
  "get_existing n =
     Inr \<lparr>name = n, description = ''a cluster made earlier'', size_field = ''Standard_NC6'',
          min_instances = 1, max_instances = 8, idle_time_before_scale_down = 600\<rparr>"

section \<open>Building the batch input tables (sections 3.1 to 3.4)\<close>

text \<open>
  Section 3.1 reads every image below the dataset directory:
  \<^verbatim>\<open>
  image_list = []
  image_path_list = []
  for dir_name in os.listdir(dataset_dir):
      dir_path = os.path.join(dataset_dir, dir_name)
      for path, _, files in os.walk(dir_path):
          for file in files:
              image_path = os.path.join(path, file)
              image = read_image(image_path)
              image_path_list.append(image_path)
              image_list.append(image)
  \<close>
  The directory tree is a parameter: the pairs \<open>(path, files)\<close> that the two outer loops
  yield, in order. \<open>read_image\<close>, which returns the base64 text of a file, is a parameter
  too. The loops run at the top level of the notebook, so \<^verbatim>\<open>image_path\<close> is a global variable
  that keeps the last value assigned to it; it is unbound while no file has been seen.
\<close>

record notebook_globals =
  image_list :: "string list"
  image_path_list :: "string list"
  image_path :: "string option"

fun files_loop ::
  "(string \<Rightarrow> string) \<Rightarrow> string \<Rightarrow> string list \<Rightarrow> notebook_globals \<Rightarrow> notebook_globals" where
  "files_loop read_image path [] g = g"
| "files_loop read_image path (file # files) g =
     (let image_path' = os_path_join path file;
          image = read_image image_path'
      in files_loop read_image path files
           (g\<lparr>image_path := Some image_path',
              image_path_list := image_path_list g @ [image_path'],
              image_list := image_list g @ [image]\<rparr>))"

fun walk_loop ::
  "(string \<Rightarrow> string) \<Rightarrow> (string \<times> string list) list \<Rightarrow> notebook_globals
     \<Rightarrow> notebook_globals" where
  "walk_loop read_image [] g = g"
| "walk_loop read_image ((path, files) # walk) g =
     walk_loop read_image walk (files_loop read_image path files g)"

definition prepare_images ::
  "(string \<Rightarrow> string) \<Rightarrow> (string \<times> string list) list \<Rightarrow> notebook_globals" where
  "prepare_images read_image walk =
     walk_loop read_image walk \<lparr>image_list = [], image_path_list = [], image_path = None\<rparr>"

text \<open>
  Section 3.2, images only:
  \<^verbatim>\<open>
  data = [[image, ""] for image in image_list]
  batch_df = pd.DataFrame(data, columns=["image", "text"])
  \<close>
\<close>

definition image_data :: "notebook_globals \<Rightarrow> string list list" where
  "image_data g = map (\<lambda>image. [image, '''']) (image_list g)"

text \<open>
  Section 3.3, text only. The variable of a comprehension is local to it (Python 3), so
  this cell leaves the global \<^verbatim>\<open>image_path\<close> as it was:
  \<^verbatim>\<open>
  data = [
      ["", "a photo of a " + os.path.basename(os.path.dirname(image_path))]
      for image_path in image_path_list
  ]
  batch_df = pd.DataFrame(data, columns=["image", "text"])
  \<close>
\<close>

definition photo_text :: "string \<Rightarrow> string" where
  "photo_text p = ''a photo of a '' @ os_path_basename (os_path_dirname p)"

definition text_data :: "notebook_globals \<Rightarrow> string list list" where
  "text_data g = map (\<lambda>image_path. ['''', photo_text image_path]) (image_path_list g)"

text \<open>
  Section 3.4, images and text. The comprehension runs over \<^verbatim>\<open>i\<close>; \<^verbatim>\<open>image_path\<close> in its
  body is the global variable, and reading it while it is unbound raises NameError:
  \<^verbatim>\<open>
  data = [
      [image_list[i], "a photo of a " + os.path.basename(os.path.dirname(image_path))]
      for i in range(len(image_list))
  ]
  batch_df = pd.DataFrame(data, columns=["image", "text"])
  \<close>
\<close>

definition name_error :: py_exception where
  "name_error =
     PyException [''NameError'', ''Exception'', ''BaseException'', ''object'']
       ''name 'image_path' is not defined''"

fun image_text_rows :: "notebook_globals \<Rightarrow> nat list \<Rightarrow> py_exception + string list list" where
  "image_text_rows g [] = Inr []"
| "image_text_rows g (i # is) =
     (case image_path g of
        None \<Rightarrow> Inl name_error
      | Some p \<Rightarrow>
          (case image_text_rows g is of
             Inl e \<Rightarrow> Inl e
           | Inr data \<Rightarrow> Inr ([image_list g ! i, photo_text p] # data)))"

definition image_text_data :: "notebook_globals \<Rightarrow> py_exception + string list list" where
  "image_text_data g = image_text_rows g (py_range 0 (length (image_list g)) 1)"

definition batch_columns :: "string list" where
  "batch_columns = [''image'', ''text'']"

text \<open>A dataset of two images in two class folders.\<close>

definition two_classes :: "(string \<times> string list) list" where
  "two_classes =
     [(''data/fridgeObjects/can'', [''1.jpg'']),
      (''data/fridgeObjects/milk_bottle'', [''2.jpg''])]"

section \<open>The fine-tuning job descriptor\<close>

text \<open>
  The descriptor is a YAML file of nested block mappings, one \<^verbatim>\<open>key: value\<close> or \<^verbatim>\<open>key:\<close> per
  line, nested by indentation. A scalar in double quotes is a string, whose text is what
  stands between the quotes; a plain scalar is kept as written. Loading the file gives the
  scalar found under each path of keys. The library that turns the file into a job object
  is not part of the repository; this is the reading of the file that YAML prescribes.
\<close>

datatype yaml_scalar = Plain string | Quoted string

text \<open>A line: its indentation, its key (up to the first colon) and the text after the colon.\<close>

definition strip_spaces :: "string \<Rightarrow> string" where
  "strip_spaces s =
     rev (dropWhile (\<lambda>c. c = CHR '' '') (rev (dropWhile (\<lambda>c. c = CHR '' '') s)))"

definition parse_scalar :: "string \<Rightarrow> yaml_scalar" where
  "parse_scalar v =
     (if 2 \<le> length v \<and> hd v = CHR 0x22 \<and> last v = CHR 0x22 then Quoted (butlast (tl v))
      else Plain v)"

definition indent_of :: "string \<Rightarrow> nat" where
  "indent_of l = length (takeWhile (\<lambda>c. c = CHR '' '') l)"

definition line_key :: "string \<Rightarrow> string" where
  "line_key l = takeWhile (\<lambda>c. c \<noteq> CHR '':'') (dropWhile (\<lambda>c. c = CHR '' '') l)"

definition line_value :: "string \<Rightarrow> string" where
  "line_value l =
     strip_spaces (drop 1 (dropWhile (\<lambda>c. c \<noteq> CHR '':'') (dropWhile (\<lambda>c. c = CHR '' '') l)))"

text \<open>The lines are read in order; \<open>stack\<close> holds the keys of the mappings that are open,
  innermost first, each with the indentation of its line. A line closes the mappings
  indented at least as much as itself.\<close>

fun load_lines ::
  "(nat \<times> string) list \<Rightarrow> string list \<Rightarrow> (string list \<times> yaml_scalar) list" where
  "load_lines stack [] = []"
| "load_lines stack (l # ls) =
     (if strip_spaces l = [] then load_lines stack ls
      else
        let n = indent_of l;
            enclosing = dropWhile (\<lambda>(m, k). n \<le> m) stack;
            path = rev (map snd enclosing) @ [line_key l]
        in if line_value l = [] then load_lines ((n, line_key l) # enclosing) ls
           else (path, parse_scalar (line_value l)) # load_lines enclosing ls)"

definition yaml_load :: "string list \<Rightarrow> (string list \<times> yaml_scalar) list" where
  "yaml_load lines = load_lines [] lines"

text \<open>The lines of the descriptor, as they stand in the repository.\<close>

definition finetuning_job_yaml :: "string list" where
  "finetuning_job_yaml =
    [''type: finetuning'',
     '''',
     ''name: \"llama-3-8B-with-compute\"'',
     ''experiment_name: \"llama-3-8B-finetuning-experiment\"'',
     ''display_name: \"llama3-8B-display-name\"'',
     ''task: text_completion'',
     ''model_provider: custom'',
     ''model: '',
     ''  path: \"azureml://registries/azureml-meta/models/Meta-Llama-3-8B/versions/8\"'',
     ''  type: mlflow_model'',
     ''compute: \"lowpri-a100\"'',
     ''training_data: train.jsonl'',
     ''validation_data:'',
     ''  path: validation.jsonl'',
     ''  type: uri_file'',
     ''hyperparameters:'',
     ''  num_train_epochs: \"1\"'',
     ''  per_device_train_batch_size: \"1\"'',
     ''  learning_rate: \"0.00002\"'',
     ''properties:'',
     ''  my_property: \"my_value\"'',
     ''tags:'',
     ''  foo_tag: \"bar\"'',
     ''outputs:'',
     ''  registered_model:'',
     ''    name: \"llama-3-8B-finetuned-model\"'',
     ''    type: mlflow_model'']"

definition yaml_get :: "(string list \<times> yaml_scalar) list \<Rightarrow> string list \<Rightarrow> yaml_scalar option" where
  "yaml_get cfg path = map_of cfg path"

fun scalar_text :: "yaml_scalar \<Rightarrow> string" where
  "scalar_text (Plain s) = s"
| "scalar_text (Quoted s) = s"

definition keys_under :: "(string list \<times> yaml_scalar) list \<Rightarrow> string \<Rightarrow> string list list" where
  "keys_under cfg k = filter (\<lambda>p. p \<noteq> [] \<and> hd p = k) (map fst cfg)"

section \<open>Properties of the chunking cell\<close>

lemma py_range_closed:
  "0 < k \<Longrightarrow> py_range i n k = map (\<lambda>q. i + k * q) [0..<(n + (k - 1) - i) div k]"
proof (induction i n k rule: py_range.induct)
  case (1 i n k)
  show ?case
  proof (cases "i < n")
    case True
    have ge: "k \<le> n + (k - 1) - i"
      using True 1(2) by simp
    have d: "(n + (k - 1) - i) div k = Suc ((n + (k - 1) - (i + k)) div k)"
      using ge 1(2) by (simp add: le_div_geq)
    have ih: "py_range (i + k) n k
        = map (\<lambda>q. i + k + k * q) [0..<(n + (k - 1) - (i + k)) div k]"
      using 1 True by simp
    have "py_range i n k = i # py_range (i + k) n k"
      using True 1(2) by (simp add: py_range.simps [of i n k])
    also have "\<dots> = i # map (\<lambda>q. i + k + k * q) [0..<(n + (k - 1) - (i + k)) div k]"
      using ih by simp
    also have "\<dots> = map (\<lambda>q. i + k * q) [0..<Suc ((n + (k - 1) - (i + k)) div k)]"
      by (simp add: upt_conv_Cons map_Suc_upt [symmetric] del: upt_Suc add: add.assoc)
    finally show ?thesis
      using d by simp
  next
    case False
    then show ?thesis
      using 1(2) by (simp add: py_range.simps [of i n k])
  qed
qed

lemma concat_slices:
  "0 < k \<Longrightarrow> n = length xs \<Longrightarrow>
   concat (map (\<lambda>i. py_slice xs i (i + k)) (py_range i n k)) = drop i xs"
proof (induction i n k rule: py_range.induct)
  case (1 i n k)
  show ?case
  proof (cases "i < n")
    case True
    have "concat (map (\<lambda>i. py_slice xs i (i + k)) (py_range i n k))
        = py_slice xs i (i + k)
          @ concat (map (\<lambda>i. py_slice xs i (i + k)) (py_range (i + k) n k))"
      using True 1(2) by (simp add: py_range.simps [of i n k])
    also have "\<dots> = take k (drop i xs) @ drop (i + k) xs"
      using 1 True by (simp add: py_slice_def)
    also have "\<dots> = drop i xs"
      by (metis add.commute append_take_drop_id drop_drop)
    finally show ?thesis .
  next
    case False
    then show ?thesis
      using 1(3) by (simp add: py_range.simps [of i "length xs" k])
  qed
qed

lemma chunk_loop_map:
  "chunk_loop batch_df folder starts =
     map (\<lambda>i. (os_path_join folder (str_nat i @ batch_input_file),
                df_slice batch_df i (i + batch_size_per_predict))) starts"
  by (induction starts) simp_all

lemma chunk_starts:
  "py_range 0 n batch_size_per_predict = map (\<lambda>q. 10 * q) [0..<(n + 9) div 10]"
  unfolding batch_size_per_predict_def
  by (subst py_range_closed) simp_all

lemma length_chunk_cell: "length (chunk_cell batch_df folder) = (len_df batch_df + 9) div 10"
  by (simp add: chunk_cell_def chunk_loop_map chunk_starts)

lemma nth_chunk_cell:
  "q < (len_df batch_df + 9) div 10 \<Longrightarrow>
   chunk_cell batch_df folder ! q =
     (os_path_join folder (str_nat (10 * q) @ batch_input_file),
      df_slice batch_df (10 * q) (10 * q + 10))"
  unfolding chunk_cell_def chunk_loop_map chunk_starts
  by (simp add: batch_size_per_predict_def)

lemma concat_chunk_rows:
  "concat (map (\<lambda>w. rows (snd w)) (chunk_cell batch_df folder)) = rows batch_df"
proof -
  have "concat (map (\<lambda>w. rows (snd w)) (chunk_cell batch_df folder))
      = concat (map (\<lambda>i. py_slice (rows batch_df) i (i + batch_size_per_predict))
          (py_range 0 (length (rows batch_df)) batch_size_per_predict))"
    by (simp add: chunk_cell_def chunk_loop_map df_slice_def len_df_def comp_def)
  also have "\<dots> = drop 0 (rows batch_df)"
    by (rule concat_slices) (simp_all add: batch_size_per_predict_def)
  finally show ?thesis
    by simp
qed

lemma take_upt_min: "take k [i..<n] = [i..<min (i + k) n]"
proof (cases "i + k \<le> n")
  case True
  then show ?thesis by (simp add: min_def)
next
  case False
  then have "length [i..<n] \<le> k" by simp
  then have "take k [i..<n] = [i..<n]" by (rule take_all)
  then show ?thesis using False by (simp add: min_def)
qed

lemma slice_upt: "py_slice [0..<n] i (i + k) = [i..<min (i + k) n]"
  by (simp add: py_slice_def take_upt_min)

lemma length_slice: "length (py_slice xs i (i + k)) = min k (length xs - i)"
  by (simp add: py_slice_def)

lemma length_written_chunks:
  "length (written_chunks batch_df folder) = (len_df batch_df + 9) div 10"
  by (simp add: written_chunks_def length_chunk_cell)

lemma nth_written_chunks:
  "q < length (written_chunks batch_df folder) \<Longrightarrow>
   written_chunks batch_df folder ! q = df_slice batch_df (10 * q) (10 * q + 10)"
  by (simp add: written_chunks_def length_chunk_cell nth_chunk_cell)

lemma concat_written_chunks:
  "concat (map rows (written_chunks batch_df folder)) = rows batch_df"
  using concat_chunk_rows [of batch_df folder] by (simp add: written_chunks_def comp_def)

lemma full_chunk:
  "Suc q < (n + 9) div 10 \<Longrightarrow> min 10 (n - 10 * q) = (10::nat)"
  by linarith

lemma ceil_div_10: "\<not> 10 dvd n \<Longrightarrow> (n + 9) div 10 = Suc (n div (10::nat))"
proof -
  assume nd: "\<not> 10 dvd n"
  define a where "a = n div 10"
  define b where "b = n mod 10"
  have n: "n = 10 * a + b" by (simp add: a_def b_def)
  have b: "0 < b" "b < 10" using nd by (simp_all add: b_def dvd_eq_mod_eq_0)
  have "(n + 9) div 10 = (10 * a + (b + 9)) div 10"
    by (simp only: n add.assoc)
  also have "\<dots> = a + (b + 9) div 10"
    by (rule div_mult_self4) simp
  also have "(b + 9) div 10 = 1"
    using b by simp
  finally show ?thesis
    by (simp only: a_def Suc_eq_plus1)
qed

lemma last_chunk_size: "\<not> 10 dvd n \<Longrightarrow> min 10 (n - 10 * ((n + 9) div 10 - 1)) = n mod (10::nat)"
proof -
  assume nd: "\<not> 10 dvd n"
  have "n - 10 * (n div 10) = n mod 10"
    by (simp add: minus_mult_div_eq_mod)
  then show ?thesis
    by (simp add: ceil_div_10 [OF nd])
qed

lemma intervals_disjoint:
  "q \<noteq> r \<Longrightarrow> {10 * q..<min (10 * q + 10) n} \<inter> {10 * r..<min (10 * r + 10) n} = ({}::nat set)"
  by (auto simp: set_eq_iff)

text \<open>
  C1. For every table of \<open>n\<close> rows the chunking loop writes \<open>\<lceil>n / 10\<rceil>\<close> chunks; chunk \<open>q\<close>
  is the slice \<^verbatim>\<open>rows[10q : 10q + 10]\<close> and carries the index labels \<open>10q, ...\<close>; the chunks
  in loop order concatenate to the original rows; every chunk but the last has exactly
  10 rows; the last has \<open>n mod 10\<close> rows when 10 does not divide \<open>n\<close>; and the index labels
  of two different chunks are disjoint.
\<close>

theorem chunk_cell_partitions_rows:
  "let cs = written_chunks (DataFrame data cols) folder; n = length data in
     length cs = (n + 9) div 10
   \<and> concat (map rows cs) = data
   \<and> (\<forall>q < length cs. rows (cs ! q) = py_slice data (10 * q) (10 * q + 10)
         \<and> index (cs ! q) = [10 * q..<min (10 * q + 10) n])
   \<and> (\<forall>q. Suc q < length cs \<longrightarrow> length (rows (cs ! q)) = 10)
   \<and> (\<not> 10 dvd n \<longrightarrow> cs \<noteq> [] \<and> length (rows (last cs)) = n mod 10)
   \<and> (\<forall>q < length cs. \<forall>r < length cs. q \<noteq> r \<longrightarrow>
         set (index (cs ! q)) \<inter> set (index (cs ! r)) = {})"
proof -
  define cs where "cs = written_chunks (DataFrame data cols) folder"
  define n where "n = length data"
  have len: "length cs = (n + 9) div 10"
    by (simp add: cs_def n_def length_written_chunks len_df_def DataFrame_def)
  have nth: "cs ! q = df_slice (DataFrame data cols) (10 * q) (10 * q + 10)"
    if "q < length cs" for q
    using that unfolding cs_def by (rule nth_written_chunks)
  have rows_nth: "rows (cs ! q) = py_slice data (10 * q) (10 * q + 10)"
    if "q < length cs" for q
    using nth [OF that] by (simp add: df_slice_def DataFrame_def)
  have index_nth: "index (cs ! q) = [10 * q..<min (10 * q + 10) n]"
    if "q < length cs" for q
    using nth [OF that] by (simp add: df_slice_def DataFrame_def slice_upt n_def)
  have cat: "concat (map rows cs) = data"
    by (simp add: cs_def concat_written_chunks DataFrame_def)
  have full: "length (rows (cs ! q)) = 10" if "Suc q < length cs" for q
  proof -
    from that have "q < length cs" by simp
    then have "length (rows (cs ! q)) = min 10 (n - 10 * q)"
      by (simp add: rows_nth length_slice n_def)
    then show ?thesis
      using that full_chunk [of q n] by (simp add: len)
  qed
  have part: "cs \<noteq> [] \<and> length (rows (last cs)) = n mod 10" if nd: "\<not> 10 dvd n"
  proof -
    from nd have "0 < n" by (cases n) simp_all
    then have pos: "0 < length cs" by (simp add: len) 
    then have ne: "cs \<noteq> []" by simp
    have "last cs = cs ! (length cs - 1)" using ne by (rule last_conv_nth)
    moreover have "length cs - 1 < length cs" using pos by simp
    ultimately have "length (rows (last cs)) = min 10 (n - 10 * (length cs - 1))"
      by (simp add: rows_nth length_slice n_def)
    then show ?thesis
      using ne last_chunk_size [OF nd] by (simp add: len)
  qed
  have disj: "set (index (cs ! q)) \<inter> set (index (cs ! r)) = {}"
    if "q < length cs" "r < length cs" "q \<noteq> r" for q r
    using that intervals_disjoint [of q r n] by (simp add: index_nth)
  show ?thesis
    unfolding Let_def cs_def [symmetric] n_def [symmetric]
    using len cat rows_nth index_nth full part disj by blast
qed


theorem chunk_cell_partitions_rows_witness:
  "length (written_chunks (DataFrame (map (\<lambda>i. [str_nat i, []]) [0..<12]) [''image'', ''text''])
      ''batch_image'') = 2
   \<and> length (rows (written_chunks (DataFrame (map (\<lambda>i. [str_nat i, []]) [0..<12])
        [''image'', ''text'']) ''batch_image'' ! 0)) = 10
   \<and> length (rows (last (written_chunks (DataFrame (map (\<lambda>i. [str_nat i, []]) [0..<12])
        [''image'', ''text'']) ''batch_image''))) = 2
   \<and> set (index (written_chunks (DataFrame (map (\<lambda>i. [str_nat i, []]) [0..<12])
        [''image'', ''text'']) ''batch_image'' ! 0))
     \<inter> set (index (written_chunks (DataFrame (map (\<lambda>i. [str_nat i, []]) [0..<12])
        [''image'', ''text'']) ''batch_image'' ! 1)) = {}"
proof -
  define cs where "cs = written_chunks
    (DataFrame (map (\<lambda>i. [str_nat i, []]) [0..<12]) [''image'', ''text'']) ''batch_image''"
  note t = chunk_cell_partitions_rows [of "map (\<lambda>i. [str_nat i, []]) [0..<12]"
      "[''image'', ''text'']" "''batch_image''", unfolded Let_def, folded cs_def]
  have len: "length cs = 2"
    using t by simp
  have nd: "\<not> (10::nat) dvd 12"
    by simp
  have full: "\<forall>q. Suc q < length cs \<longrightarrow> length (rows (cs ! q)) = 10"
    using t by blast
  have "Suc 0 < length cs"
    using len by simp
  with full have first: "length (rows (cs ! 0)) = 10"
    by blast
  have lastc: "length (rows (last cs)) = 2"
    using t nd by simp
  have "(0::nat) < length cs" "(1::nat) < length cs" "(0::nat) \<noteq> 1"
    using len by simp_all
  then have "set (index (cs ! 0)) \<inter> set (index (cs ! 1)) = {}"
    using t by blast
  then show ?thesis
    using len first lastc unfolding cs_def by simp
qed

subsection \<open>File names of the chunks\<close>

lemma of_char_digit_char: "d < 10 \<Longrightarrow> of_char (digit_char d) = 48 + d"
proof -
  have "list_all (\<lambda>d. of_char (digit_char d) = (48 + d :: nat)) [0..<10]"
    by code_simp
  moreover assume "d < 10"
  ultimately show ?thesis
    by (simp add: list_all_iff)
qed

lemma digit_char_inj: "a < 10 \<Longrightarrow> b < 10 \<Longrightarrow> digit_char a = digit_char b \<Longrightarrow> a = b"
proof -
  assume a: "a < 10" and b: "b < 10" and e: "digit_char a = digit_char b"
  have "(of_char (digit_char a) :: nat) = of_char (digit_char b)"
    using e by simp
  then show "a = b"
    using of_char_digit_char [OF a] of_char_digit_char [OF b] by simp
qed

lemma digit_char_not_sep: "d < 10 \<Longrightarrow> digit_char d \<noteq> CHR ''/''"
proof
  assume d: "d < 10" and e: "digit_char d = CHR ''/''"
  have "(of_char (digit_char d) :: nat) = of_char CHR ''/''"
    using e by simp
  then show False
    using of_char_digit_char [OF d] by simp
qed

lemma str_nat_nonempty: "str_nat n \<noteq> []"
  by (subst str_nat.simps) simp

lemma hd_str_nat: "\<exists>d<10. hd (str_nat n) = digit_char d"
proof (induction n rule: str_nat.induct)
  case (1 n)
  show ?case
  proof (cases "n < 10")
    case True
    then show ?thesis
      by (subst str_nat.simps) auto
  next
    case False
    then have "hd (str_nat n) = hd (str_nat (n div 10))"
      by (subst str_nat.simps) (simp add: str_nat_nonempty)
    then show ?thesis
      using 1 False by simp
  qed
qed

lemma str_nat_inj: "str_nat m = str_nat n \<Longrightarrow> m = n"
proof (induction m arbitrary: n rule: str_nat.induct)
  case (1 m)
  show ?case
  proof (cases "m < 10")
    case True
    then have sm: "str_nat m = [digit_char m]"
      by (subst str_nat.simps) simp
    show ?thesis
    proof (cases "n < 10")
      case True
      then have "str_nat n = [digit_char n]"
        by (subst str_nat.simps) simp
      with sm 1(2) \<open>m < 10\<close> True show ?thesis
        by (simp add: digit_char_inj)
    next
      case False
      then have "str_nat n = str_nat (n div 10) @ [digit_char (n mod 10)]"
        by (subst str_nat.simps) simp
      with sm 1(2) have "str_nat (n div 10) = []"
        by simp
      then show ?thesis
        using str_nat_nonempty by blast
    qed
  next
    case False
    then have sm: "str_nat m = str_nat (m div 10) @ [digit_char (m mod 10)]"
      by (subst str_nat.simps) simp
    show ?thesis
    proof (cases "n < 10")
      case True
      then have "str_nat n = [digit_char n]"
        by (subst str_nat.simps) simp
      with sm 1(2) have "str_nat (m div 10) = []"
        by simp
      then show ?thesis
        using str_nat_nonempty by blast
    next
      case nf: False
      then have sn: "str_nat n = str_nat (n div 10) @ [digit_char (n mod 10)]"
        by (subst str_nat.simps) simp
      from sm sn 1(2) have a: "str_nat (m div 10) = str_nat (n div 10)"
        and b: "digit_char (m mod 10) = digit_char (n mod 10)"
        by simp_all
      have "m div 10 = n div 10"
        using 1(1) [OF False a] .
      moreover have "m mod 10 = n mod 10"
        using b by (simp add: digit_char_inj)
      ultimately show ?thesis
        by (metis div_mult_mod_eq)
    qed
  qed
qed

lemma chunk_path_append:
  "os_path_join folder (str_nat i @ batch_input_file) =
     (if folder = [] \<or> last folder = CHR ''/'' then folder else folder @ ''/'')
       @ str_nat i @ batch_input_file"
proof -
  obtain d where d: "d < 10" "hd (str_nat i) = digit_char d"
    using hd_str_nat by blast
  have "hd (str_nat i @ batch_input_file) = digit_char d"
    using d str_nat_nonempty by simp
  then have "hd (str_nat i @ batch_input_file) \<noteq> CHR ''/''"
    using digit_char_not_sep [OF d(1)] by simp
  then show ?thesis
    by (simp add: os_path_join_def)
qed

lemma chunk_path_inj:
  "os_path_join folder (str_nat i @ batch_input_file)
     = os_path_join folder (str_nat j @ batch_input_file) \<Longrightarrow> i = j"
  by (simp add: chunk_path_append str_nat_inj)

lemma distinct_chunk_paths: "distinct (map fst (chunk_cell batch_df folder))"
proof -
  have "distinct (map (\<lambda>q. 10 * q) [0..<m])" for m :: nat
    by (simp add: distinct_map inj_on_def)
  then have "distinct (py_range 0 (len_df batch_df) batch_size_per_predict)"
    by (simp add: chunk_starts)
  moreover have "inj_on (\<lambda>i. os_path_join folder (str_nat i @ batch_input_file)) A" for A
    by (rule inj_onI) (rule chunk_path_inj)
  ultimately show ?thesis
    by (simp add: chunk_cell_def chunk_loop_map comp_def distinct_map)
qed

lemma dom_to_csv_all: "dom (to_csv_all ws fs) = dom fs \<union> fst ` set ws"
proof (induction ws arbitrary: fs)
  case Nil
  show ?case by simp
next
  case (Cons w ws)
  obtain path df where w: "w = (path, df)"
    by (cases w)
  have "dom (to_csv_all (w # ws) fs) = dom (fs(path \<mapsto> df)) \<union> fst ` set ws"
    by (simp only: w to_csv_all.simps Cons.IH)
  also have "\<dots> = dom fs \<union> fst ` set (w # ws)"
    by (simp only: dom_fun_upd w) auto 
  finally show ?case .
qed

lemma to_csv_all_notin: "p \<notin> fst ` set ws \<Longrightarrow> to_csv_all ws fs p = fs p"
proof (induction ws arbitrary: fs)
  case Nil
  show ?case by simp
next
  case (Cons w ws)
  obtain path df where w: "w = (path, df)"
    by (cases w)
  from Cons.prems have "p \<noteq> path" "p \<notin> fst ` set ws"
    by (auto simp: w)
  then show ?case
    by (simp add: w Cons.IH)
qed

lemma to_csv_all_distinct:
  "distinct (map fst ws) \<Longrightarrow> (p, df) \<in> set ws \<Longrightarrow> to_csv_all ws fs p = Some df"
proof (induction ws arbitrary: fs)
  case Nil
  then show ?case by simp
next
  case (Cons w ws)
  obtain path df' where w: "w = (path, df')"
    by (cases w)
  from Cons.prems(1) have notin: "path \<notin> fst ` set ws" and dist: "distinct (map fst ws)"
    by (simp_all add: w)
  show ?case
  proof (cases "(p, df) \<in> set ws")
    case True
    then show ?thesis
      using Cons.IH [OF dist True] by (simp add: w)
  next
    case False
    with Cons.prems(2) have "p = path" "df = df'"
      by (simp_all add: w)
    then show ?thesis
      using notin by (simp add: w to_csv_all_notin)
  qed
qed

text \<open>
  C8. Each chunk goes to a file of its own: the \<open>q\<close>-th \<^verbatim>\<open>to_csv\<close> call writes chunk \<open>q\<close> to
  \<^verbatim>\<open>os.path.join(folder, str(10 * q) + "batch_input.csv")\<close>; the paths of the calls are
  pairwise distinct, so after the loop every chunk is still found under its path (whatever
  the folder held before), and the loop creates exactly as many files as there are chunks.
\<close>

theorem chunk_files_do_not_collide:
  "let ws = chunk_cell batch_df folder in
     length ws = length (written_chunks batch_df folder)
   \<and> distinct (map fst ws)
   \<and> (\<forall>q < length ws.
         fst (ws ! q) = os_path_join folder (str_nat (10 * q) @ ''batch_input.csv'')
       \<and> snd (ws ! q) = written_chunks batch_df folder ! q
       \<and> to_csv_all ws fs (fst (ws ! q)) = Some (snd (ws ! q)))
   \<and> card (dom (to_csv_all ws Map.empty)) = length ws"
proof -
  define ws where "ws = chunk_cell batch_df folder"
  have len: "length ws = length (written_chunks batch_df folder)"
    by (simp add: ws_def written_chunks_def)
  have dist: "distinct (map fst ws)"
    unfolding ws_def by (rule distinct_chunk_paths)
  have nth: "fst (ws ! q) = os_path_join folder (str_nat (10 * q) @ ''batch_input.csv'')
       \<and> snd (ws ! q) = written_chunks batch_df folder ! q
       \<and> to_csv_all ws fs (fst (ws ! q)) = Some (snd (ws ! q))" if q: "q < length ws" for q
  proof -
    have "q < (len_df batch_df + 9) div 10"
      using q by (simp add: ws_def length_chunk_cell)
    then have "fst (ws ! q) = os_path_join folder (str_nat (10 * q) @ ''batch_input.csv'')"
      by (simp add: ws_def nth_chunk_cell batch_input_file_def)
    moreover have "snd (ws ! q) = written_chunks batch_df folder ! q"
      using q by (simp add: ws_def written_chunks_def)
    moreover have "(fst (ws ! q), snd (ws ! q)) \<in> set ws"
      using q by simp
    then have "to_csv_all ws fs (fst (ws ! q)) = Some (snd (ws ! q))"
      using dist by (rule to_csv_all_distinct [rotated])
    ultimately show ?thesis
      by simp
  qed
  have "card (dom (to_csv_all ws Map.empty)) = card (set (map fst ws))"
    by (simp add: dom_to_csv_all)
  also have "\<dots> = length ws"
    using dist by (simp add: distinct_card del: set_map)
  finally have card: "card (dom (to_csv_all ws Map.empty)) = length ws" .
  show ?thesis
    unfolding Let_def ws_def [symmetric]
    using len dist nth card by blast
qed

theorem chunk_files_do_not_collide_witness:
  "fst (chunk_cell (DataFrame (map (\<lambda>i. [str_nat i, []]) [0..<12]) [''image'', ''text''])
      ''batch_image'' ! 1) = ''batch_image/10batch_input.csv''
   \<and> distinct (map fst (chunk_cell (DataFrame (map (\<lambda>i. [str_nat i, []]) [0..<12])
        [''image'', ''text'']) ''batch_image''))
   \<and> to_csv_all (chunk_cell (DataFrame (map (\<lambda>i. [str_nat i, []]) [0..<12])
        [''image'', ''text'']) ''batch_image'') Map.empty ''batch_image/10batch_input.csv''
       = Some (written_chunks (DataFrame (map (\<lambda>i. [str_nat i, []]) [0..<12])
           [''image'', ''text'']) ''batch_image'' ! 1)
   \<and> card (dom (to_csv_all (chunk_cell (DataFrame (map (\<lambda>i. [str_nat i, []]) [0..<12])
        [''image'', ''text'']) ''batch_image'') Map.empty)) = 2"
proof -
  define D where "D = DataFrame (map (\<lambda>i. [str_nat i, []]) [0..<12]) [''image'', ''text'']"
  define ws where "ws = chunk_cell D ''batch_image''"
  note t = chunk_files_do_not_collide [of D "''batch_image''" Map.empty,
      unfolded Let_def, folded ws_def]
  have len: "length ws = 2"
    by (simp add: ws_def length_chunk_cell D_def DataFrame_def len_df_def)
  then have one: "1 < length ws"
    by simp
  have name: "os_path_join ''batch_image'' (str_nat (10 * 1) @ ''batch_input.csv'')
      = ''batch_image/10batch_input.csv''"
    by (simp add: os_path_join_def str_nat.simps digit_char_def)
  have nth: "fst (ws ! 1) = os_path_join ''batch_image'' (str_nat (10 * 1) @ ''batch_input.csv'')
      \<and> snd (ws ! 1) = written_chunks D ''batch_image'' ! 1
      \<and> to_csv_all ws Map.empty (fst (ws ! 1)) = Some (snd (ws ! 1))"
    using t one by blast
  have dist: "distinct (map fst ws)" and card: "card (dom (to_csv_all ws Map.empty)) = length ws"
    using t by blast+
  from nth have n1: "fst (ws ! 1)
        = os_path_join ''batch_image'' (str_nat (10 * 1) @ ''batch_input.csv'')"
    and n2: "snd (ws ! 1) = written_chunks D ''batch_image'' ! 1"
    and n3: "to_csv_all ws Map.empty (fst (ws ! 1)) = Some (snd (ws ! 1))"
    by blast+
  have a: "fst (ws ! 1) = ''batch_image/10batch_input.csv''"
    using n1 name by (rule trans)
  have b: "to_csv_all ws Map.empty ''batch_image/10batch_input.csv''
      = Some (written_chunks D ''batch_image'' ! 1)"
    using n3 unfolding a n2 .
  have c: "card (dom (to_csv_all ws Map.empty)) = 2"
    using card unfolding len .
  show ?thesis
    unfolding D_def [symmetric] ws_def [symmetric]
    using a dist b c by (intro conjI)
qed


section \<open>Properties of the invocation cell\<close>

lemma range_num_retries: "py_range 0 3 1 = [0, 1, 2]"
  by (simp add: py_range.simps)

lemma invoke_retry_unfold:
  "invoke_retry invoke =
    (case invoke 0 of
       Inr j \<Rightarrow> (Completed, \<lparr>job = Some j, trace = [Invoke 0]\<rparr>)
     | Inl e \<Rightarrow>
        if \<not> isinstance e ''Exception'' then (Raised e, \<lparr>job = None, trace = [Invoke 0]\<rparr>)
        else (case invoke 1 of
           Inr j \<Rightarrow> (Completed, \<lparr>job = Some j, trace = [Invoke 0, Print retry_msg, Sleep 5, Invoke 1]\<rparr>)
         | Inl e \<Rightarrow>
            if \<not> isinstance e ''Exception''
            then (Raised e, \<lparr>job = None, trace = [Invoke 0, Print retry_msg, Sleep 5, Invoke 1]\<rparr>)
            else (case invoke 2 of
               Inr j \<Rightarrow> (Completed, \<lparr>job = Some j,
                  trace = [Invoke 0, Print retry_msg, Sleep 5, Invoke 1, Print retry_msg, Sleep 5, Invoke 2]\<rparr>)
             | Inl e \<Rightarrow> (Raised e, \<lparr>job = None,
                  trace = [Invoke 0, Print retry_msg, Sleep 5, Invoke 1, Print retry_msg, Sleep 5, Invoke 2]\<rparr>))))"
  unfolding invoke_retry_def Let_def range_num_retries
  by (simp add: Let_def split: sum.split)


text \<open>The bound on the calls comes from the loop: it makes at most one call per element of
  the range.\<close>

lemma attempts_append: "attempts (xs @ ys) = attempts xs @ attempts ys"
  by (induction xs rule: attempts.induct) simp_all

lemma retry_loop_attempts_le:
  "length (attempts (trace (snd (retry_loop invoke n is s))))
     \<le> length (attempts (trace s)) + length is"
proof (induction "is" arbitrary: s)
  case Nil
  show ?case by simp
next
  case (Cons i "is")
  show ?case
  proof (cases "invoke i")
    case (Inr j)
    then show ?thesis
      by (simp add: Let_def attempts_append)
  next
    case (Inl e)
    show ?thesis
    proof (cases "isinstance e ''Exception'' \<and> i \<noteq> n - 1")
      case True
      have "length (attempts (trace (snd (retry_loop invoke n is
              (s\<lparr>trace := trace s @ [Invoke i] @ [Print retry_msg, Sleep 5]\<rparr>)))))
          \<le> length (attempts (trace (s\<lparr>trace := trace s @ [Invoke i]
                @ [Print retry_msg, Sleep 5]\<rparr>))) + length is"
        by (rule Cons.IH)
      then show ?thesis
        using Inl True by (simp add: Let_def attempts_append)
    next
      case False
      then show ?thesis
        using Inl by (auto simp: Let_def attempts_append)
    qed
  qed
qed

lemma invoke_retry_attempts_le: "length (attempts (trace (snd (invoke_retry invoke)))) \<le> 3"
proof -
  have "length (py_range 0 3 1) = 3"
    unfolding range_num_retries by simp
  then show ?thesis
    unfolding invoke_retry_def Let_def
    using retry_loop_attempts_le [of invoke 3 "py_range 0 3 1" "\<lparr>job = None, trace = []\<rparr>"]
    by simp
qed

text \<open>
  C2. The retry loop calls the endpoint at most 3 times. If a call that was made returns a
  job, the loop ends normally, that call is the last one made and \<^verbatim>\<open>job\<close> is the job it
  returned. If three calls were made and all three failed, the loop ends by raising the
  exception object of the third call, unchanged.
\<close>

theorem invoke_retry_bounded:
  "case invoke_retry invoke of (c, s) \<Rightarrow>
     length (attempts (trace s)) \<le> 3
   \<and> (\<forall>i j. i \<in> set (attempts (trace s)) \<and> invoke i = Inr j \<longrightarrow>
        c = Completed \<and> job s = Some j \<and> last (attempts (trace s)) = i)
   \<and> (attempts (trace s) = [0, 1, 2] \<and> (\<forall>i < 3. isl (invoke i)) \<longrightarrow>
        (\<exists>e. invoke 2 = Inl e \<and> c = Raised e))"
proof -
  obtain c s where r: "invoke_retry invoke = (c, s)"
    by (cases "invoke_retry invoke")
  have bound: "length (attempts (trace s)) \<le> 3"
    using invoke_retry_attempts_le [of invoke] by (simp add: r)
  have stop: "c = Completed \<and> job s = Some j \<and> last (attempts (trace s)) = i"
    if "i \<in> set (attempts (trace s))" "invoke i = Inr j" for i j
    using r that by (auto simp: invoke_retry_unfold split: sum.splits if_splits)
  have reraise: "\<exists>e. invoke 2 = Inl e \<and> c = Raised e"
    if made: "attempts (trace s) = [0, 1, 2]" and failed: "\<forall>i < 3. isl (invoke i)"
  proof -
    from failed have "isl (invoke 2)"
      by simp
    then obtain e where e: "invoke 2 = Inl e"
      by (auto simp: isl_def)
    then have "c = Raised e"
      using r made by (auto simp: invoke_retry_unfold split: sum.splits if_splits)
    with e show ?thesis
      by blast
  qed
  show ?thesis
    unfolding r using bound stop reraise by simp blast
qed


theorem invoke_retry_bounded_witness:
  "fst (invoke_retry flaky_invoke) = Completed
   \<and> job (snd (invoke_retry flaky_invoke)) = Some (BatchJob ''batchjob-1'')
   \<and> last (attempts (trace (snd (invoke_retry flaky_invoke)))) = 2
   \<and> fst (invoke_retry failing_invoke) = Raised (PyException [''HttpResponseError'',
         ''AzureError'', ''Exception'', ''BaseException'', ''object''] ''attempt 2'')"
proof -
  have made: "attempts (trace (snd (invoke_retry flaky_invoke))) = [0, 1, 2]"
    by (simp add: invoke_retry_unfold flaky_invoke_def service_error_def isinstance_def)
  have made': "attempts (trace (snd (invoke_retry failing_invoke))) = [0, 1, 2]"
    by (simp add: invoke_retry_unfold failing_invoke_def isinstance_def)
  have third: "failing_invoke 2 = Inl (PyException [''HttpResponseError'',
         ''AzureError'', ''Exception'', ''BaseException'', ''object''] ''attempt 2'')"
    by (simp add: failing_invoke_def str_nat.simps digit_char_def)
  have "2 \<in> set (attempts (trace (snd (invoke_retry flaky_invoke))))"
    and "flaky_invoke 2 = Inr (BatchJob ''batchjob-1'')"
    by (simp_all add: made flaky_invoke_def)
  then have a: "fst (invoke_retry flaky_invoke) = Completed
      \<and> job (snd (invoke_retry flaky_invoke)) = Some (BatchJob ''batchjob-1'')
      \<and> last (attempts (trace (snd (invoke_retry flaky_invoke)))) = 2"
    using invoke_retry_bounded [of flaky_invoke, unfolded case_prod_beta] by blast
  have "\<forall>i < 3. isl (failing_invoke i)"
    by (simp add: failing_invoke_def)
  then have "\<exists>e. failing_invoke 2 = Inl e \<and> fst (invoke_retry failing_invoke) = Raised e"
    using invoke_retry_bounded [of failing_invoke, unfolded case_prod_beta] made' by blast
  then have b: "fst (invoke_retry failing_invoke) = Raised (PyException [''HttpResponseError'',
         ''AzureError'', ''Exception'', ''BaseException'', ''object''] ''attempt 2'')"
    unfolding third by simp
  from a b show ?thesis
    by (intro conjI) blast+
qed

text \<open>
  C3. With \<open>k\<close> the number of calls made (between 1 and 3), the trace of the loop is: for
  each call but the last, the call, the message and one sleep of 5 seconds, and then the
  last call, with nothing after it. So there is exactly one sleep between two consecutive
  calls, each of them after a call that failed, none after a call that returned a job and
  none after the last failed call; at most 2 sleeps occur.
\<close>

theorem sleep_between_attempts:
  "case invoke_retry invoke of (c, s) \<Rightarrow>
     let k = length (attempts (trace s)) in
       1 \<le> k \<and> k \<le> 3
     \<and> trace s
         = concat (map (\<lambda>i. [Invoke i, Print retry_msg, Sleep 5]) [0..<k - 1]) @ [Invoke (k - 1)]
     \<and> sleeps (trace s) = replicate (k - 1) 5
     \<and> length (sleeps (trace s)) \<le> 2
     \<and> (\<forall>i < k - 1. \<exists>e. invoke i = Inl e \<and> isinstance e ''Exception'')
     \<and> (c = Completed \<longrightarrow> (\<exists>j. invoke (k - 1) = Inr j))
     \<and> (\<forall>e. c = Raised e \<longrightarrow> invoke (k - 1) = Inl e)"
  by (auto simp: invoke_retry_unfold Let_def less_Suc_eq numeral_2_eq_2 numeral_3_eq_3
      split: sum.split)

theorem sleep_between_attempts_witness:
  "trace (snd (invoke_retry flaky_invoke))
     = [Invoke 0, Print retry_msg, Sleep 5, Invoke 1, Print retry_msg, Sleep 5, Invoke 2]
   \<and> sleeps (trace (snd (invoke_retry flaky_invoke))) = [5, 5]
   \<and> flaky_invoke 2 = Inr (BatchJob ''batchjob-1'')"
proof -
  have k: "length (attempts (trace (snd (invoke_retry flaky_invoke)))) = 3"
    and c: "fst (invoke_retry flaky_invoke) = Completed"
    by (simp_all add: invoke_retry_unfold flaky_invoke_def service_error_def isinstance_def)
  note t = sleep_between_attempts [of flaky_invoke, unfolded case_prod_beta Let_def k]
  have u: "[0..<3 - 1] = [0, 1]"
    by (simp add: upt_rec)
  from t have "trace (snd (invoke_retry flaky_invoke))
      = concat (map (\<lambda>i. [Invoke i, Print retry_msg, Sleep 5]) [0..<3 - 1]) @ [Invoke (3 - 1)]"
    and "sleeps (trace (snd (invoke_retry flaky_invoke))) = replicate (3 - 1) 5"
    and "fst (invoke_retry flaky_invoke) = Completed \<longrightarrow> (\<exists>j. flaky_invoke (3 - 1) = Inr j)"
    by blast+
  then show ?thesis
    using c unfolding u by (simp add: numeral_2_eq_2 flaky_invoke_def)
qed


text \<open>
  C4, as stated, fails: the handler is \<^verbatim>\<open>except Exception\<close>, and an exception that is not
  an instance of \<^verbatim>\<open>Exception\<close> (here a \<^verbatim>\<open>KeyboardInterrupt\<close> raised during the first call)
  ends the cell after one call, with no retry.
\<close>

theorem retry_any_exception_counterexample:
  "interrupted_invoke 0 = Inl keyboard_interrupt
   \<and> attempts (trace (snd (invoke_retry interrupted_invoke))) = [0]
   \<and> fst (invoke_retry interrupted_invoke) = Raised keyboard_interrupt"
  by (simp add: invoke_retry_unfold interrupted_invoke_def keyboard_interrupt_def
      isinstance_def)

text \<open>
  C4, amended. The loop looks at nothing but membership in \<^verbatim>\<open>Exception\<close>: whenever a call
  before the third raises an instance of \<^verbatim>\<open>Exception\<close>, of whatever subclass, the next call is
  made; an exception that is not an instance of \<^verbatim>\<open>Exception\<close> propagates at once, and the
  call that raised it is the last one made.
\<close>

theorem retry_on_every_Exception:
  "case invoke_retry invoke of (c, s) \<Rightarrow>
     (\<forall>i e. i \<in> set (attempts (trace s)) \<and> i < 2 \<and> invoke i = Inl e
          \<and> isinstance e ''Exception'' \<longrightarrow>
        Suc i \<in> set (attempts (trace s)))
   \<and> (\<forall>i e. i \<in> set (attempts (trace s)) \<and> invoke i = Inl e
          \<and> \<not> isinstance e ''Exception'' \<longrightarrow>
        c = Raised e \<and> last (attempts (trace s)) = i)"
proof -
  obtain c s where r: "invoke_retry invoke = (c, s)"
    by (cases "invoke_retry invoke")
  have retry: "Suc i \<in> set (attempts (trace s))"
    if "i \<in> set (attempts (trace s))" "i < 2" "invoke i = Inl e" "isinstance e ''Exception''"
    for i e
    using r that by (auto simp: invoke_retry_unfold split: sum.splits if_splits)
  have abort: "c = Raised e \<and> last (attempts (trace s)) = i"
    if "i \<in> set (attempts (trace s))" "invoke i = Inl e" "\<not> isinstance e ''Exception''"
    for i e
    using r that by (auto simp: invoke_retry_unfold split: sum.splits if_splits)
  show ?thesis
    unfolding r using retry abort by simp blast
qed

theorem retry_on_every_Exception_witness:
  "Suc 0 \<in> set (attempts (trace (snd (invoke_retry flaky_invoke))))
   \<and> fst (invoke_retry interrupted_invoke) = Raised keyboard_interrupt
   \<and> last (attempts (trace (snd (invoke_retry interrupted_invoke)))) = 0"
proof -
  have "0 \<in> set (attempts (trace (snd (invoke_retry flaky_invoke))))"
    and "(0::nat) < 2" and "flaky_invoke 0 = Inl service_error"
    and "isinstance service_error ''Exception''"
    by (simp_all add: invoke_retry_unfold flaky_invoke_def service_error_def isinstance_def)
  then have a: "Suc 0 \<in> set (attempts (trace (snd (invoke_retry flaky_invoke))))"
    using retry_on_every_Exception [of flaky_invoke, unfolded case_prod_beta] by blast
  have "0 \<in> set (attempts (trace (snd (invoke_retry interrupted_invoke))))"
    and "interrupted_invoke 0 = Inl keyboard_interrupt"
    and "\<not> isinstance keyboard_interrupt ''Exception''"
    by (simp_all add: invoke_retry_unfold interrupted_invoke_def keyboard_interrupt_def
        isinstance_def)
  then have b: "fst (invoke_retry interrupted_invoke) = Raised keyboard_interrupt
      \<and> last (attempts (trace (snd (invoke_retry interrupted_invoke)))) = 0"
    using retry_on_every_Exception [of interrupted_invoke, unfolded case_prod_beta] by blast
  from a b show ?thesis
    by blast
qed

text \<open>
  C9. Whenever the loop ends normally, \<^verbatim>\<open>job\<close> is not \<^verbatim>\<open>None\<close>, so the guard
  \<^verbatim>\<open>job is not None\<close> is true whenever it is evaluated. In the whole cell,
  \<^verbatim>\<open>jobs.stream\<close> is called if and only if some call that was made returned a job, it is
  called with that job's name, and \<^verbatim>\<open>job\<close> is \<^verbatim>\<open>None\<close> at the end exactly when the cell
  ended by an exception.
\<close>

theorem job_set_when_guard_reached:
  "(\<forall>s. invoke_retry invoke = (Completed, s) \<longrightarrow> job s \<noteq> None)
   \<and> (case invoke_cell invoke of (c, s) \<Rightarrow>
        (streams (trace s) \<noteq> [] \<longleftrightarrow> (\<exists>i \<in> set (attempts (trace s)). \<not> isl (invoke i)))
      \<and> (\<forall>j. job s = Some j \<longrightarrow> c = Completed \<and> streams (trace s) = [job_name j])
      \<and> (job s = None \<longleftrightarrow> (\<exists>e. c = Raised e)))"
proof -
  have guard: "job s \<noteq> None" if "invoke_retry invoke = (Completed, s)" for s
    using that by (auto simp: invoke_retry_unfold split: sum.splits if_splits)
  obtain c s where r: "invoke_cell invoke = (c, s)"
    by (cases "invoke_cell invoke")
  have iff: "streams (trace s) \<noteq> [] \<longleftrightarrow> (\<exists>i \<in> set (attempts (trace s)). \<not> isl (invoke i))"
    using r by (auto simp: invoke_cell_def invoke_retry_unfold split: sum.splits if_splits)
  have name: "c = Completed \<and> streams (trace s) = [job_name j]" if "job s = Some j" for j
    using r that by (auto simp: invoke_cell_def invoke_retry_unfold split: sum.splits if_splits)
  have none: "job s = None \<longleftrightarrow> (\<exists>e. c = Raised e)"
    using r by (auto simp: invoke_cell_def invoke_retry_unfold split: sum.splits if_splits)
  show ?thesis
    unfolding r using guard iff name none by simp
qed

theorem job_set_when_guard_reached_witness:
  "job (snd (invoke_retry flaky_invoke)) \<noteq> None
   \<and> streams (trace (snd (invoke_cell flaky_invoke))) = [''batchjob-1'']
   \<and> streams (trace (snd (invoke_cell failing_invoke))) = []"
proof -
  note t = job_set_when_guard_reached [of flaky_invoke, unfolded case_prod_beta]
  note t' = job_set_when_guard_reached [of failing_invoke, unfolded case_prod_beta]
  have r: "invoke_retry flaky_invoke = (Completed, snd (invoke_retry flaky_invoke))"
    by (simp add: invoke_retry_unfold flaky_invoke_def service_error_def isinstance_def)
  have a: "job (snd (invoke_retry flaky_invoke)) \<noteq> None"
    using t r by blast
  have "job (snd (invoke_cell flaky_invoke)) = Some (BatchJob ''batchjob-1'')"
    by (simp add: invoke_cell_def invoke_retry_unfold flaky_invoke_def service_error_def
        isinstance_def)
  then have "streams (trace (snd (invoke_cell flaky_invoke))) = [job_name (BatchJob ''batchjob-1'')]"
    using t by blast
  then have b: "streams (trace (snd (invoke_cell flaky_invoke))) = [''batchjob-1'']"
    by simp
  have "\<not> (\<exists>i \<in> set (attempts (trace (snd (invoke_cell failing_invoke)))).
      \<not> isl (failing_invoke i))"
    by (simp add: failing_invoke_def)
  then have c: "streams (trace (snd (invoke_cell failing_invoke))) = []"
    using t' by blast
  from a b c show ?thesis
    by blast
qed

section \<open>Properties of the compute cluster setup\<close>

text \<open>
  C10. The cell first looks the cluster up. It issues a creation call if and only if the
  lookup raises an instance of \<^verbatim>\<open>ResourceNotFoundError\<close>, and then exactly one, for an
  \<^verbatim>\<open>AmlCompute\<close> named \<^verbatim>\<open>cpu-cluster\<close> of size \<^verbatim>\<open>Standard_DS3_V2\<close> with 0 to 3 instances.
  Any other exception of the lookup propagates, the very object, after the lookup alone.
  When the lookup returns a cluster, the cell only prints a line: no call that could change
  the cluster is made.
\<close>

theorem compute_created_only_when_missing:
  "case compute_cell compute_get create_result of (c, tr) \<Rightarrow>
     ((\<exists>cfg. BeginCreateOrUpdate cfg \<in> set tr) \<longleftrightarrow>
        (\<exists>e. compute_get compute_name = Inl e \<and> isinstance e ''ResourceNotFoundError''))
   \<and> (\<forall>cfg. BeginCreateOrUpdate cfg \<in> set tr \<longrightarrow>
        name cfg = ''cpu-cluster'' \<and> size_field cfg = ''Standard_DS3_V2''
        \<and> min_instances cfg = 0 \<and> max_instances cfg = 3
        \<and> tr = [ComputeGet ''cpu-cluster'', Print ''Creating a new compute target...'',
              BeginCreateOrUpdate cfg])
   \<and> (\<forall>e. compute_get compute_name = Inl e \<and> \<not> isinstance e ''ResourceNotFoundError'' \<longrightarrow>
        c = Raised e \<and> tr = [ComputeGet ''cpu-cluster''])
   \<and> (\<forall>existing. compute_get compute_name = Inr existing \<longrightarrow>
        c = Completed
        \<and> tr = [ComputeGet ''cpu-cluster'', Print ''Found existing compute target.''])"
proof (cases "compute_get compute_name")
  case (Inr existing)
  then show ?thesis
    by (simp add: compute_cell_def compute_name_def)
next
  case (Inl e)
  show ?thesis
  proof (cases "isinstance e ''ResourceNotFoundError''")
    case True
    with Inl show ?thesis
      by (auto simp: compute_cell_def compute_config_def compute_name_def)
  next
    case False
    with Inl show ?thesis
      by (simp add: compute_cell_def compute_name_def)
  qed
qed

theorem compute_created_only_when_missing_witness:
  "snd (compute_cell get_missing (Inr ()))
     = [ComputeGet ''cpu-cluster'', Print ''Creating a new compute target...'',
        BeginCreateOrUpdate compute_config]
   \<and> compute_cell get_forbidden (Inr ()) = (Raised not_authorised, [ComputeGet ''cpu-cluster''])
   \<and> compute_cell get_existing (Inr ())
     = (Completed, [ComputeGet ''cpu-cluster'', Print ''Found existing compute target.''])"
proof -
  note t1 = compute_created_only_when_missing [of get_missing "Inr ()", unfolded case_prod_beta]
  note t2 = compute_created_only_when_missing [of get_forbidden "Inr ()", unfolded case_prod_beta]
  note t3 = compute_created_only_when_missing [of get_existing "Inr ()", unfolded case_prod_beta]
  have "get_missing compute_name = Inl not_found"
    and "isinstance not_found ''ResourceNotFoundError''"
    by (simp_all add: get_missing_def not_found_def isinstance_def)
  then obtain cfg where cfg: "BeginCreateOrUpdate cfg \<in> set (snd (compute_cell get_missing (Inr ())))"
    using t1 by blast
  then have tr: "snd (compute_cell get_missing (Inr ()))
      = [ComputeGet ''cpu-cluster'', Print ''Creating a new compute target...'',
         BeginCreateOrUpdate cfg]"
    using t1 by blast
  have "cfg = compute_config"
    using tr by (simp add: compute_cell_def get_missing_def not_found_def isinstance_def)
  with tr have a: "snd (compute_cell get_missing (Inr ()))
      = [ComputeGet ''cpu-cluster'', Print ''Creating a new compute target...'',
         BeginCreateOrUpdate compute_config]"
    by simp
  have "get_forbidden compute_name = Inl not_authorised"
    and "\<not> isinstance not_authorised ''ResourceNotFoundError''"
    by (simp_all add: get_forbidden_def not_authorised_def isinstance_def)
  then have "fst (compute_cell get_forbidden (Inr ())) = Raised not_authorised
      \<and> snd (compute_cell get_forbidden (Inr ())) = [ComputeGet ''cpu-cluster'']"
    using t2 by blast
  then have b: "compute_cell get_forbidden (Inr ())
      = (Raised not_authorised, [ComputeGet ''cpu-cluster''])"
    by (simp add: prod_eq_iff)
  have "\<exists>existing. get_existing compute_name = Inr existing"
    by (simp add: get_existing_def)
  then have "fst (compute_cell get_existing (Inr ())) = Completed
      \<and> snd (compute_cell get_existing (Inr ()))
        = [ComputeGet ''cpu-cluster'', Print ''Found existing compute target.'']"
    using t3 by blast
  then have c: "compute_cell get_existing (Inr ())
      = (Completed, [ComputeGet ''cpu-cluster'', Print ''Found existing compute target.''])"
    by (simp add: prod_eq_iff)
  from a b c show ?thesis
    by blast
qed

section \<open>Properties of the batch input tables\<close>

lemma py_range_step1: "py_range 0 n (Suc 0) = [0..<n]"
  by (subst py_range_closed) (simp_all add: map_idI)

lemma image_data_nth:
  "i < length (image_list g) \<Longrightarrow> image_data g ! i = [image_list g ! i, '''']"
  by (simp add: image_data_def)

lemma text_data_nth:
  "i < length (image_path_list g) \<Longrightarrow>
   text_data g ! i = ['''', photo_text (image_path_list g ! i)]"
  by (simp add: text_data_def)

lemma chunk_columns:
  "c \<in> set (written_chunks (DataFrame data batch_columns) folder) \<Longrightarrow>
   columns c = [''image'', ''text'']"
  by (auto simp: written_chunks_def chunk_cell_def chunk_loop_map df_slice_def DataFrame_def
      batch_columns_def)

lemma files_loop_globals:
  assumes "length (image_list g) = length (image_path_list g)"
    and "image_path g = (if image_path_list g = [] then None else Some (last (image_path_list g)))"
  shows "length (image_list (files_loop read_image path files g))
           = length (image_path_list (files_loop read_image path files g))
       \<and> image_path (files_loop read_image path files g)
           = (if image_path_list (files_loop read_image path files g) = [] then None
              else Some (last (image_path_list (files_loop read_image path files g))))"
  using assms
proof (induction files arbitrary: g)
  case Nil
  then show ?case by simp
next
  case (Cons f files)
  show ?case
    unfolding files_loop.simps Let_def
    by (rule Cons.IH) (simp_all add: Cons.prems(1))
qed

lemma walk_loop_globals:
  assumes "length (image_list g) = length (image_path_list g)"
    and "image_path g = (if image_path_list g = [] then None else Some (last (image_path_list g)))"
  shows "length (image_list (walk_loop read_image walk g))
           = length (image_path_list (walk_loop read_image walk g))
       \<and> image_path (walk_loop read_image walk g)
           = (if image_path_list (walk_loop read_image walk g) = [] then None
              else Some (last (image_path_list (walk_loop read_image walk g))))"
  using assms
proof (induction walk arbitrary: g)
  case Nil
  then show ?case by simp
next
  case (Cons entry walk)
  obtain path files where entry: "entry = (path, files)"
    by (cases entry)
  have inv: "length (image_list (files_loop read_image path files g))
           = length (image_path_list (files_loop read_image path files g))
       \<and> image_path (files_loop read_image path files g)
           = (if image_path_list (files_loop read_image path files g) = [] then None
              else Some (last (image_path_list (files_loop read_image path files g))))"
    using Cons.prems by (rule files_loop_globals)
  show ?case
    unfolding entry walk_loop.simps
    using inv by (intro Cons.IH) blast+
qed

lemma image_text_rows_bound:
  "image_path g = Some p \<Longrightarrow>
   image_text_rows g is = Inr (map (\<lambda>i. [image_list g ! i, photo_text p]) is)"
  by (induction "is") simp_all

lemma image_text_data_last_path:
  assumes g: "g = prepare_images read_image walk" and ne: "image_list g \<noteq> []"
  shows "image_text_data g
    = Inr (map (\<lambda>image. [image, photo_text (last (image_path_list g))]) (image_list g))"
proof -
  have inv: "length (image_list g) = length (image_path_list g)
     \<and> image_path g = (if image_path_list g = [] then None else Some (last (image_path_list g)))"
    unfolding g prepare_images_def by (rule walk_loop_globals) simp_all
  with ne have p: "image_path g = Some (last (image_path_list g))"
    by auto
  have "image_text_data g
      = Inr (map (\<lambda>i. [image_list g ! i, photo_text (last (image_path_list g))])
          [0..<length (image_list g)])"
    by (simp add: image_text_data_def py_range_step1 image_text_rows_bound [OF p])
  also have "map (\<lambda>i. [image_list g ! i, photo_text (last (image_path_list g))])
          [0..<length (image_list g)]
      = map (\<lambda>image. [image, photo_text (last (image_path_list g))])
          (map (\<lambda>i. image_list g ! i) [0..<length (image_list g)])"
    by (simp add: comp_def)
  also have "map (\<lambda>i. image_list g ! i) [0..<length (image_list g)] = image_list g"
    by (rule map_nth)
  finally show ?thesis .
qed

text \<open>
  C5 on the combined table, run on a dataset of two images in the folders \<^verbatim>\<open>can\<close> and
  \<^verbatim>\<open>milk_bottle\<close>: both rows carry the text of the last path read, although the text
  derived from \<^verbatim>\<open>image_path_list[0]\<close> is \<^verbatim>\<open>a photo of a can\<close>.
\<close>

theorem image_text_rows_share_last_path:
  "image_text_data (prepare_images read_image two_classes)
     = Inr [[read_image ''data/fridgeObjects/can/1.jpg'', ''a photo of a milk_bottle''],
            [read_image ''data/fridgeObjects/milk_bottle/2.jpg'', ''a photo of a milk_bottle'']]
   \<and> image_path_list (prepare_images read_image two_classes) ! 0
     = ''data/fridgeObjects/can/1.jpg''
   \<and> photo_text (image_path_list (prepare_images read_image two_classes) ! 0)
     = ''a photo of a can''"
  by (simp add: image_text_data_def prepare_images_def two_classes_def py_range_step1
      Let_def os_path_join_def photo_text_def os_path_basename_def os_path_dirname_def
      rfind_sep_end_def rstrip_sep_def upt_rec)

section \<open>Properties of the fine-tuning job descriptor\<close>

lemma finetuning_job_loaded:
  "yaml_load finetuning_job_yaml =
 [([''type''], Plain ''finetuning''),
  ([''name''], Quoted ''llama-3-8B-with-compute''),
  ([''experiment_name''], Quoted ''llama-3-8B-finetuning-experiment''),
  ([''display_name''], Quoted ''llama3-8B-display-name''),
  ([''task''], Plain ''text_completion''),
  ([''model_provider''], Plain ''custom''),
  ([''model'', ''path''],
   Quoted ''azureml://registries/azureml-meta/models/Meta-Llama-3-8B/versions/8''),
  ([''model'', ''type''], Plain ''mlflow_model''),
  ([''compute''], Quoted ''lowpri-a100''),
  ([''training_data''], Plain ''train.jsonl''),
  ([''validation_data'', ''path''], Plain ''validation.jsonl''),
  ([''validation_data'', ''type''], Plain ''uri_file''),
  ([''hyperparameters'', ''num_train_epochs''], Quoted ''1''),
  ([''hyperparameters'', ''per_device_train_batch_size''], Quoted ''1''),
  ([''hyperparameters'', ''learning_rate''], Quoted ''0.00002''),
  ([''properties'', ''my_property''], Quoted ''my_value''),
  ([''tags'', ''foo_tag''], Quoted ''bar''),
  ([''outputs'', ''registered_model'', ''name''], Quoted ''llama-3-8B-finetuned-model''),
  ([''outputs'', ''registered_model'', ''type''], Plain ''mlflow_model'')]"
  by code_simp

text \<open>
  C7. Loading the descriptor gives, unchanged, the values written in the file: the compute
  target \<^verbatim>\<open>lowpri-a100\<close>, the training data \<^verbatim>\<open>train.jsonl\<close>, the validation data path
  \<^verbatim>\<open>validation.jsonl\<close>, and the three hyperparameters, each a string: \<^verbatim>\<open>"1"\<close>, \<^verbatim>\<open>"1"\<close> and
  \<^verbatim>\<open>"0.00002"\<close>; there is no other hyperparameter.
\<close>

theorem finetuning_job_values:
  "yaml_get (yaml_load finetuning_job_yaml) [''compute''] = Some (Quoted ''lowpri-a100'')
   \<and> yaml_get (yaml_load finetuning_job_yaml) [''training_data''] = Some (Plain ''train.jsonl'')
   \<and> yaml_get (yaml_load finetuning_job_yaml) [''validation_data'', ''path'']
       = Some (Plain ''validation.jsonl'')
   \<and> yaml_get (yaml_load finetuning_job_yaml) [''hyperparameters'', ''num_train_epochs'']
       = Some (Quoted ''1'')
   \<and> yaml_get (yaml_load finetuning_job_yaml) [''hyperparameters'', ''per_device_train_batch_size'']
       = Some (Quoted ''1'')
   \<and> yaml_get (yaml_load finetuning_job_yaml) [''hyperparameters'', ''learning_rate'']
       = Some (Quoted ''0.00002'')
   \<and> keys_under (yaml_load finetuning_job_yaml) ''hyperparameters''
       = [[''hyperparameters'', ''num_train_epochs''],
          [''hyperparameters'', ''per_device_train_batch_size''],
          [''hyperparameters'', ''learning_rate'']]"
  unfolding finetuning_job_loaded by (simp add: yaml_get_def keys_under_def)


end
